theory Spec2Isabelle
  imports Main "HOL-Library.Word"
begin

unbundle bit_operations_syntax

section \<open>The 7-bit codec\<close>

text \<open>
  Go's \<open>byte\<close> is an unsigned 8-bit integer: \<open>&\<close>, \<open>|\<close>, \<open><<\<close> and \<open>>>\<close> on it are the
  bitwise operations of \<open>8 word\<close>, and a left shift drops the bits that leave the byte.
\<close>

type_synonym byte = "8 word"

text \<open>\<^verbatim>\<open>return (b0 & 0x7F) | ((b1 & 0x7F) << 7)\<close>\<close>

definition from7Bit :: "byte \<Rightarrow> byte \<Rightarrow> byte" where
  "from7Bit b0 b1 = (b0 AND 0x7F) OR push_bit 7 (b1 AND 0x7F)"

text \<open>\<^verbatim>\<open>return []byte{i & 0x7f, (i >> 7) & 0x7f}\<close>\<close>

definition to7Bit :: "byte \<Rightarrow> byte list" where
  "to7Bit i = [i AND 0x7f, drop_bit 7 i AND 0x7f]"

text \<open>
  \<^verbatim>\<open>return []byte{byte(i & 0x7f), byte((i >> 7) & 0x7f), byte((i >> 14) & 0x7f)}\<close>

  The argument is a Go \<open>int\<close>. Nothing here can overflow (\<open>&\<close> and the arithmetic
  shift \<open>>>\<close> stay within the argument's range), so the argument is an \<open>int\<close>;
  \<open>byte(_)\<close> keeps the low eight bits.
\<close>

definition intto7Bit :: "int \<Rightarrow> byte list" where
  "intto7Bit i = [word_of_int (i AND 0x7f), word_of_int (drop_bit 7 i AND 0x7f),
                  word_of_int (drop_bit 14 i AND 0x7f)]"

text \<open>
  A Go \<open>string\<close> is a sequence of bytes. The conversion \<open>string(b)\<close> of an integer
  value, here a byte, is the UTF-8 encoding of the code point with that number: one byte
  below \<open>0x80\<close>, two bytes from \<open>0x80\<close> to \<open>0xFF\<close>.
\<close>

type_synonym gostring = "byte list"

definition string_of_byte :: "byte \<Rightarrow> gostring" where
  "string_of_byte b =
     (if b < 0x80 then [b] else [0xC0 OR drop_bit 6 b, 0x80 OR (b AND 0x3F)])"

text \<open>
  Run-time panics of the functions modelled here: an index outside a slice, and a method
  call through a nil interface value.
\<close>

datatype panic = IndexOutOfRange int nat | NilDereference

text \<open>
  \<^verbatim>\<open>
  for i := 0; i < len(data); i = i + 2 {
      str = str + string(from7Bit(data[i], data[i+1]))
  }
  \<close>
  The read of \<open>data[i+1]\<close> is checked as Go checks it.
\<close>

function multibyteString_loop :: "byte list \<Rightarrow> nat \<Rightarrow> gostring \<Rightarrow> panic + gostring" where
  "multibyteString_loop data i str =
     (if i < length data then
        (if i + 1 < length data
         then multibyteString_loop data (i + 2)
                (str @ string_of_byte (from7Bit (data ! i) (data ! (i + 1))))
         else Inl (IndexOutOfRange (int (i + 1)) (length data)))
      else Inr str)"
  by pat_completeness auto
termination
  by (relation "measure (\<lambda>(data, i, str). length data - i)") auto

text \<open>
  \<^verbatim>\<open>
  if len(data)%2 != 0 { data = append(data, 0) }
  \<close>
  and then the loop, from index 0 and the empty string.
\<close>

definition multibyteString :: "byte list \<Rightarrow> panic + gostring" where
  "multibyteString data =
     (let data = (if length data mod 2 \<noteq> 0 then data @ [0] else data)
      in multibyteString_loop data 0 [])"

text \<open>
  The recursive equation of the loop is unfolded by hand where it is needed.
\<close>

declare multibyteString_loop.simps [simp del]

text \<open>
  For the statements about \<open>multibyteString\<close>: the byte \<open>from7Bit\<close> decodes from each
  consecutive pair \<open>d[2k], d[2k+1]\<close> of a sequence, and the text made of the characters
  with given numbers, each converted by \<open>string(_)\<close>.
\<close>

definition pair_values :: "byte list \<Rightarrow> byte list" where
  "pair_values d = map (\<lambda>k. from7Bit (d ! (2 * k)) (d ! (2 * k + 1))) [0..<length d div 2]"

definition text_of :: "byte list \<Rightarrow> gostring" where
  "text_of cs = concat (map string_of_byte cs)"

subsection \<open>Reading a text back, for the round trip of the specification\<close>

text \<open>
  The specification's round trip re-encodes "each decoded character" of the text. The
  characters of a Go string are its code points, as \<open>range\<close> yields them. \<open>runes\<close>
  decodes the one-byte and two-byte forms of UTF-8, the only forms \<open>string_of_byte\<close>
  writes; any other byte is read as the replacement character \<open>U+FFFD\<close>, one byte
  wide, as Go reads a malformed byte. It is not a function of the repository.
\<close>

fun runes :: "gostring \<Rightarrow> nat list" where
  "runes [] = []"
| "runes [b] = [if b < 0x80 then unat b else 0xFFFD]"
| "runes (b # c # bs) =
     (if b < 0x80 then unat b # runes (c # bs)
      else if 0xC2 \<le> b \<and> b \<le> 0xDF \<and> 0x80 \<le> c \<and> c \<le> 0xBF
           then (push_bit 6 (unat (b AND 0x1F)) OR unat (c AND 0x3F)) # runes bs
      else 0xFFFD # runes (c # bs))"

text \<open>Each character of the text, as a byte, through \<open>to7Bit\<close>; the pairs concatenated.\<close>

definition reencode :: "gostring \<Rightarrow> byte list" where
  "reencode s = concat (map (\<lambda>r. to7Bit (of_nat r)) (runes s))"

section \<open>The client: package goduino\<close>

subsection \<open>What package firmata supplies\<close>

text \<open>
  Modelled from the spec: the declaration of \<open>firmata.Pin\<close> is not among the sources.
  Section 3 of the specification gives a pin its supported modes, its current mode and
  its current value; the client reads the field \<open>Mode\<close> only.
\<close>

record Pin =
  SupportedModes :: "int list"
  Mode :: int
  Val :: int

text \<open>
  The mode constants \<open>firmata.Input\<close>, \<open>firmata.Output\<close>, \<open>firmata.Analog\<close>,
  \<open>firmata.Pwm\<close> and \<open>firmata.Servo\<close> are declared outside the sources as well. Their
  numbers are a parameter of every function that names one.
\<close>

record modes =
  Input :: int
  Output :: int
  Analog :: int
  Pwm :: int
  Servo :: int

text \<open>The numbers of the Firmata protocol, for concrete runs.\<close>

definition firmata_modes :: modes where
  "firmata_modes = \<lparr>Input = 0, Output = 1, Analog = 2, Pwm = 3, Servo = 4\<rparr>"

text \<open>
  A Go \<open>error\<close> value: the one \<open>PinMode\<close> builds with
  \<^verbatim>\<open>fmt.Errorf("Invalid pin number %v\n", pin)\<close>, or one the board returned. A function
  returning \<open>error\<close> returns \<open>None\<close> for \<open>nil\<close>.
\<close>

datatype error = InvalidPinNumber int | BoardError string

text \<open>
  The interface \<open>firmataBoard\<close>. The board behind it is a mutable object, so each method
  takes the board's state \<open>'b\<close> and returns the new one beside its \<open>error\<close>. The record
  holds the methods the client's functions below call; \<open>Connect\<close>, \<open>DigitalWrite\<close>,
  \<open>I2cRead\<close>, \<open>I2cWrite\<close> and \<open>I2cConfig\<close> are called by none of them.
\<close>

record 'b firmataBoard =
  board_Disconnect :: "'b \<Rightarrow> error option \<times> 'b"
  board_Pins :: "'b \<Rightarrow> Pin list"
  board_AnalogWrite :: "int \<Rightarrow> int \<Rightarrow> 'b \<Rightarrow> error option \<times> 'b"
  board_SetPinMode :: "int \<Rightarrow> int \<Rightarrow> 'b \<Rightarrow> error option \<times> 'b"
  board_ReportAnalog :: "int \<Rightarrow> int \<Rightarrow> 'b \<Rightarrow> error option \<times> 'b"
  board_ReportDigital :: "int \<Rightarrow> int \<Rightarrow> 'b \<Rightarrow> error option \<times> 'b"
  board_ServoConfig :: "int \<Rightarrow> int \<Rightarrow> int \<Rightarrow> 'b \<Rightarrow> error option \<times> 'b"

subsection \<open>The struct Goduino\<close>

text \<open>
  What \<open>logger.Printf\<close> is given: the format's name and its two arguments. The second
  argument of the \<open>pinMode\<close> line is printed with \<open>%s\<close>, that is through \<open>String()\<close>.
\<close>

datatype logline = LogServoWrite int int | LogPwmWrite int int | LogPinMode int string

text \<open>
  \<open>board\<close> is \<open>None\<close> for a nil interface value. \<open>logger\<close> holds the lines printed so
  far. The fields \<open>conn\<close> and \<open>openSP\<close> are used by \<open>Connect\<close> only and are left out.
\<close>

record 'b Goduino =
  name :: string
  port :: string
  board :: "'b option"
  logger :: "logline list"
  verbose :: bool

text \<open>
  A Go \<open>int\<close> is modelled as an \<open>int\<close> between \<open>- 2 ^ 63\<close> and \<open>2 ^ 63 - 1\<close>, its
  range on a 64-bit platform. The one addition in the client wraps as Go's does.
\<close>

definition wrap_int :: "int \<Rightarrow> int" where
  "wrap_int x = (x + 2 ^ 63) mod 2 ^ 64 - 2 ^ 63"

text \<open>\<^verbatim>\<open>return pin + 14\<close>\<close>

definition digitalPin :: "int \<Rightarrow> int" where
  "digitalPin pin = wrap_int (pin + 14)"

text \<open>The indexing \<open>s[i]\<close> of a slice by an \<open>int\<close>, which panics outside \<open>0 \<le> i < len(s)\<close>.\<close>

definition slice_index :: "'a list \<Rightarrow> int \<Rightarrow> panic + 'a" where
  "slice_index s i =
     (if 0 \<le> i \<and> i < int (length s) then Inr (s ! nat i)
      else Inl (IndexOutOfRange i (length s)))"

text \<open>
  \<^verbatim>\<open>
  if ino.board != nil { return ino.board.Disconnect() }
  return nil
  \<close>
\<close>

definition Disconnect :: "'b firmataBoard \<Rightarrow> 'b Goduino \<Rightarrow> error option \<times> 'b Goduino" where
  "Disconnect B ino =
     (case board ino of
        Some b \<Rightarrow> (let (err, b') = board_Disconnect B b in (err, ino\<lparr>board := Some b'\<rparr>))
      | None \<Rightarrow> (None, ino))"

text \<open>\<^verbatim>\<open>return ino.board.ServoConfig(pin, max, min)\<close>, for \<open>ServoConfig(pin, min, max int)\<close>.\<close>

definition ServoConfig ::
  "'b firmataBoard \<Rightarrow> 'b Goduino \<Rightarrow> int \<Rightarrow> int \<Rightarrow> int \<Rightarrow> panic + (error option \<times> 'b Goduino)" where
  "ServoConfig B ino pin min' max' =
     (case board ino of
        None \<Rightarrow> Inl NilDereference
      | Some b \<Rightarrow>
          (let (err, b') = board_ServoConfig B pin max' min' b
           in Inr (err, ino\<lparr>board := Some b'\<rparr>)))"

text \<open>
  \<^verbatim>\<open>
  if ino.board.Pins()[pin].Mode != firmata.Servo {
      err = ino.board.SetPinMode(pin, firmata.Servo)
      if err != nil { return err }
  }
  ino.logger.Printf("ServoWrite(%d, %d)\r\n", pin, int(angle))
  err = ino.board.AnalogWrite(pin, int(angle))
  return
  \<close>
\<close>

definition ServoWrite ::
  "modes \<Rightarrow> 'b firmataBoard \<Rightarrow> 'b Goduino \<Rightarrow> int \<Rightarrow> byte \<Rightarrow> panic + (error option \<times> 'b Goduino)" where
  "ServoWrite F B ino pin angle =
     (case board ino of
        None \<Rightarrow> Inl NilDereference
      | Some b \<Rightarrow>
          (case slice_index (board_Pins B b) pin of
             Inl p \<Rightarrow> Inl p
           | Inr pn \<Rightarrow>
               (let (err, b1) = (if Mode pn \<noteq> Servo F then board_SetPinMode B pin (Servo F) b
                                 else (None, b))
                in case err of
                     Some e \<Rightarrow> Inr (Some e, ino\<lparr>board := Some b1\<rparr>)
                   | None \<Rightarrow>
                       (let (err2, b2) = board_AnalogWrite B pin (uint angle) b1
                        in Inr (err2, ino\<lparr>board := Some b2,
                                         logger := logger ino @ [LogServoWrite pin (uint angle)]\<rparr>)))))"

text \<open>The same with \<open>firmata.Pwm\<close> and the line \<^verbatim>\<open>"PwmWrite(%d, %d)\r\n"\<close>.\<close>

definition PwmWrite ::
  "modes \<Rightarrow> 'b firmataBoard \<Rightarrow> 'b Goduino \<Rightarrow> int \<Rightarrow> byte \<Rightarrow> panic + (error option \<times> 'b Goduino)" where
  "PwmWrite F B ino pin level =
     (case board ino of
        None \<Rightarrow> Inl NilDereference
      | Some b \<Rightarrow>
          (case slice_index (board_Pins B b) pin of
             Inl p \<Rightarrow> Inl p
           | Inr pn \<Rightarrow>
               (let (err, b1) = (if Mode pn \<noteq> Pwm F then board_SetPinMode B pin (Pwm F) b
                                 else (None, b))
                in case err of
                     Some e \<Rightarrow> Inr (Some e, ino\<lparr>board := Some b1\<rparr>)
                   | None \<Rightarrow>
                       (let (err2, b2) = board_AnalogWrite B pin (uint level) b1
                        in Inr (err2, ino\<lparr>board := Some b2,
                                         logger := logger ino @ [LogPwmWrite pin (uint level)]\<rparr>)))))"

text \<open>
  \<^verbatim>\<open>
  type PinMode uint8
  func (m PinMode) String() string {
      switch {
      case m == Input:  return "INPUT"
      case m == Output: return "OUTPUT"
      case m == Analog: return "ANALOG"
      case m == Pwm:    return "PWM"
      case m == Servo:  return "SERVO"
      }
      return "UNKNOWN"
  }
  \<close>
  The receiver is a \<open>uint8\<close>; each constant is compared with its value.
\<close>

definition PinMode_String :: "modes \<Rightarrow> 8 word \<Rightarrow> string" where
  "PinMode_String F m =
     (if uint m = Input F then ''INPUT''
      else if uint m = Output F then ''OUTPUT''
      else if uint m = Analog F then ''ANALOG''
      else if uint m = Pwm F then ''PWM''
      else if uint m = Servo F then ''SERVO''
      else ''UNKNOWN'')"

text \<open>
  \<^verbatim>\<open>
  if uint8(pin) < 0 || pin > len(ino.board.Pins()) {
      return fmt.Errorf("Invalid pin number %v\n", pin)
  }
  switch mode {
  case Input:   SetPinMode(pin, mode); ReportDigital(pin, 1)
  case Analog:  pin = ino.digitalPin(pin); SetPinMode(pin, mode); ReportAnalog(pin, 1)
  default:      SetPinMode(pin, mode)
  }
  ino.logger.Printf("pinMode(%d, %s)\r\n", pin, PinMode(mode))
  return nil
  \<close>
  Each board call that returns an error ends the function with that error. The
  conversion \<open>PinMode(mode)\<close> keeps the low eight bits of \<open>mode\<close>. The waits of 10 ms
  after the report commands are not modelled.
\<close>

definition PinMode ::
  "modes \<Rightarrow> 'b firmataBoard \<Rightarrow> 'b Goduino \<Rightarrow> int \<Rightarrow> int \<Rightarrow> panic + (error option \<times> 'b Goduino)" where
  "PinMode F B ino pin mode =
     (case board ino of
        None \<Rightarrow> Inl NilDereference
      | Some b \<Rightarrow>
          if (word_of_int pin :: 8 word) < 0 \<or> pin > int (length (board_Pins B b))
          then Inr (Some (InvalidPinNumber pin), ino)
          else if mode = Input F then
            (case board_SetPinMode B pin mode b of
               (Some e, b1) \<Rightarrow> Inr (Some e, ino\<lparr>board := Some b1\<rparr>)
             | (None, b1) \<Rightarrow>
                 (case board_ReportDigital B pin 1 b1 of
                    (Some e, b2) \<Rightarrow> Inr (Some e, ino\<lparr>board := Some b2\<rparr>)
                  | (None, b2) \<Rightarrow>
                      Inr (None, ino\<lparr>board := Some b2,
                                        logger := logger ino @ [LogPinMode pin (PinMode_String F (word_of_int mode))]\<rparr>)))
          else if mode = Analog F then
            (let pin = digitalPin pin in
             case board_SetPinMode B pin mode b of
               (Some e, b1) \<Rightarrow> Inr (Some e, ino\<lparr>board := Some b1\<rparr>)
             | (None, b1) \<Rightarrow>
                 (case board_ReportAnalog B pin 1 b1 of
                    (Some e, b2) \<Rightarrow> Inr (Some e, ino\<lparr>board := Some b2\<rparr>)
                  | (None, b2) \<Rightarrow>
                      Inr (None, ino\<lparr>board := Some b2,
                                        logger := logger ino @ [LogPinMode pin (PinMode_String F (word_of_int mode))]\<rparr>)))
          else
            (case board_SetPinMode B pin mode b of
               (Some e, b1) \<Rightarrow> Inr (Some e, ino\<lparr>board := Some b1\<rparr>)
             | (None, b1) \<Rightarrow>
                 Inr (None, ino\<lparr>board := Some b1,
                                   logger := logger ino @ [LogPinMode pin (PinMode_String F (word_of_int mode))]\<rparr>)))"

subsection \<open>A board that records what it is asked\<close>

text \<open>
  An implementation of \<open>firmataBoard\<close> for concrete runs: it keeps the pin table it was
  given, appends every command it receives to \<open>sent\<close>, with the arguments in the order of
  the call, and reports success.
\<close>

datatype command =
    SetPinMode int int
  | AnalogWrite int int
  | ReportAnalog int int
  | ReportDigital int int
  | BoardServoConfig int int int

datatype phase = Disconnected | Connecting | AwaitingCapabilities | Ready

record recorder =
  pins :: "Pin list"
  sent :: "command list"
  connection :: phase

definition record_command :: "command \<Rightarrow> recorder \<Rightarrow> error option \<times> recorder" where
  "record_command c r = (None, r\<lparr>sent := sent r @ [c]\<rparr>)"

text \<open>
  Modelled from the spec: the board's \<open>Disconnect\<close> is in package firmata, which is not
  among the sources. Section 4.5: it "stops the Listener Loop, releases the transport,
  transitions to Disconnected; idempotent - calling it twice is a no-op, not a failure";
  section 3: "the whole table is discarded on disconnect".
\<close>

definition recorder_Disconnect :: "recorder \<Rightarrow> error option \<times> recorder" where
  "recorder_Disconnect r =
     (if connection r = Disconnected then (None, r)
      else (None, r\<lparr>pins := [], connection := Disconnected\<rparr>))"

definition recording_board :: "recorder firmataBoard" where
  "recording_board =
     \<lparr>board_Disconnect = recorder_Disconnect,
      board_Pins = pins,
      board_AnalogWrite = (\<lambda>pin v. record_command (AnalogWrite pin v)),
      board_SetPinMode = (\<lambda>pin m. record_command (SetPinMode pin m)),
      board_ReportAnalog = (\<lambda>pin v. record_command (ReportAnalog pin v)),
      board_ReportDigital = (\<lambda>pin v. record_command (ReportDigital pin v)),
      board_ServoConfig = (\<lambda>pin a b. record_command (BoardServoConfig pin a b))\<rparr>"

text \<open>The same board, except that its \<open>SetPinMode\<close> fails and records nothing.\<close>

definition refusing_board :: "recorder firmataBoard" where
  "refusing_board =
     recording_board\<lparr>board_SetPinMode := (\<lambda>pin m r. (Some (BoardError ''refused''), r))\<rparr>"

text \<open>A board with \<open>n\<close> pins, all in mode \<open>m\<close>, connected, and a client holding it.\<close>

definition board_of :: "nat \<Rightarrow> int \<Rightarrow> recorder" where
  "board_of n m =
     \<lparr>pins = replicate n \<lparr>SupportedModes = [], Mode = m, Val = 0\<rparr>, sent = [],
      connection = Ready\<rparr>"

definition client_of :: "recorder \<Rightarrow> recorder Goduino" where
  "client_of r = \<lparr>name = ''uno'', port = ''tty'', board = Some r, logger = [], verbose = True\<rparr>"

text \<open>The commands a call left on the recording board.\<close>

definition commands_of :: "panic + (error option \<times> recorder Goduino) \<Rightarrow> command list option" where
  "commands_of res =
     (case res of Inl p \<Rightarrow> None
      | Inr (err, ino) \<Rightarrow> (case board ino of None \<Rightarrow> None | Some r \<Rightarrow> Some (sent r)))"

text \<open>The error a call returned: \<open>Some None\<close> is a return of \<open>nil\<close>, \<open>None\<close> a panic.\<close>

definition error_of :: "panic + (error option \<times> 'b Goduino) \<Rightarrow> error option option" where
  "error_of res = (case res of Inl p \<Rightarrow> None | Inr (err, ino) \<Rightarrow> Some err)"

section \<open>Properties of the codec\<close>

lemma byte_7f: "(0x7f::byte) = mask 7"
  by (simp add: mask_eq_exp_minus_1)

lemma int_7f: "(0x7f::int) = mask 7"
  by (simp add: mask_eq_exp_minus_1)

lemma and_7f_small: "b < 128 \<Longrightarrow> (b::byte) AND 0x7F = b"
  unfolding byte_7f using less_mask_eq[of b 7] by simp

lemma from7Bit_to7Bit_parts: "from7Bit (i AND 0x7f) (drop_bit 7 i AND 0x7f) = i"
proof -
  have "bit (from7Bit (i AND 0x7f) (drop_bit 7 i AND 0x7f)) n = bit i n" if n: "n < 8" for n
  proof (cases "n < 7")
    case True
    then show ?thesis unfolding from7Bit_def byte_7f by (simp add: bit_simps)
  next
    case False
    with n have "n = 7" by simp
    then show ?thesis unfolding from7Bit_def byte_7f by (simp add: bit_simps)
  qed
  then show ?thesis by (auto intro: bit_word_eqI)
qed

lemma high_byte_zero: "v \<le> 127 \<Longrightarrow> drop_bit 7 (v::byte) AND 0x7f = 0"
proof -
  assume "v \<le> 127"
  then have "unat v < 2 ^ 7" by (simp add: word_le_nat_alt)
  then have "unat (drop_bit 7 v) = 0"
    by (simp add: drop_bit_eq_div unat_div)
  then have "drop_bit 7 v = 0" by (simp add: unat_eq_zero)
  then show ?thesis by simp
qed

lemma uint_from7Bit:
  "uint (from7Bit b0 b1) = ((uint b0 AND 0x7F) OR push_bit 7 (uint b1 AND 0x7F)) mod 256"
proof -
  have "uint (from7Bit b0 b1) = take_bit 8 ((uint b0 AND mask 7) OR push_bit 7 (uint b1 AND mask 7))"
    unfolding from7Bit_def byte_7f
    by (rule bit_eqI) (auto simp add: bit_simps)
  then show ?thesis by (simp add: take_bit_eq_mod int_7f [symmetric])
qed

lemma uint_and_7f_small: "b < 128 \<Longrightarrow> uint (b::byte) AND 0x7F = uint b"
proof -
  assume "b < 128"
  then have "b AND 0x7F = b" by (rule and_7f_small)
  then have "uint (b AND 0x7F) = uint b" by simp
  then show ?thesis by (simp add: uint_and)
qed

text \<open>
  Claim C5, as the code has it. \<open>from7Bit\<close> returns a byte. For bytes \<open>b0\<close> and \<open>b1\<close>
  below 128 its value is the low eight bits of the number \<open>b0 | (b1 << 7)\<close>, and it is
  that number itself when \<open>b1\<close> is below 2. \<open>to7Bit\<close> returns two bytes, \<open>from7Bit\<close> of
  these two is the byte \<open>to7Bit\<close> was given, and the second of them is 0 for a byte up
  to 127.
\<close>

theorem from7Bit_low_eight_bits:
  "(b0 < 128 \<and> b1 < 128 \<longrightarrow>
      uint (from7Bit b0 b1) = (uint b0 OR push_bit 7 (uint b1)) mod 256) \<and>
   (b0 < 128 \<and> b1 < 2 \<longrightarrow>
      uint (from7Bit b0 b1) = uint b0 OR push_bit 7 (uint b1)) \<and>
   length (to7Bit v) = 2 \<and>
   from7Bit (to7Bit v ! 0) (to7Bit v ! 1) = v \<and>
   (v \<le> 127 \<longrightarrow> to7Bit v ! 1 = 0)"
proof (intro conjI impI)
  assume "b0 < 128 \<and> b1 < 128"
  then show "uint (from7Bit b0 b1) = (uint b0 OR push_bit 7 (uint b1)) mod 256"
    by (simp only: uint_from7Bit uint_and_7f_small)
next
  assume h: "b0 < 128 \<and> b1 < 2"
  then have b1: "b1 < 128" by (simp add: word_less_nat_alt)
  from h have "uint b0 < 2 ^ 8" "uint b1 < 2" by (simp_all add: word_less_def)
  then have "push_bit 7 (uint b1) < 2 ^ 8" by (simp add: push_bit_eq_mult)
  with \<open>uint b0 < 2 ^ 8\<close> have "uint b0 OR push_bit 7 (uint b1) < 2 ^ 8"
    by (intro OR_upper) simp_all
  moreover have "0 \<le> uint b0 OR push_bit 7 (uint b1)" by simp
  ultimately have "(uint b0 OR push_bit 7 (uint b1)) mod 256 = uint b0 OR push_bit 7 (uint b1)"
    by simp
  with h b1 show "uint (from7Bit b0 b1) = uint b0 OR push_bit 7 (uint b1)"
    by (simp only: uint_from7Bit uint_and_7f_small)
next
  show "length (to7Bit v) = 2" by (simp add: to7Bit_def)
next
  show "from7Bit (to7Bit v ! 0) (to7Bit v ! 1) = v"
    using from7Bit_to7Bit_parts [of v] by (simp add: to7Bit_def)
next
  assume "v \<le> 127"
  then show "to7Bit v ! 1 = 0" using high_byte_zero [of v] by (simp add: to7Bit_def)
qed

theorem from7Bit_low_eight_bits_witness:
  "(5::byte) < 128 \<and> (3::byte) < 128 \<and> uint (from7Bit 5 3) = 133 \<and>
   (uint (5::byte) OR push_bit 7 (uint (3::byte))) mod 256 = 133 \<and>
   (1::byte) < 2 \<and> uint (from7Bit 5 1) = 133 \<and>
   uint (5::byte) OR push_bit 7 (uint (1::byte)) = 133 \<and>
   to7Bit 100 = [100, 0] \<and> from7Bit 100 0 = 100 \<and> (100::byte) \<le> 127 \<and>
   to7Bit 200 = [72, 1] \<and> from7Bit 72 1 = 200"
  using from7Bit_low_eight_bits [of 5 3 100] from7Bit_low_eight_bits [of 5 1 200]
  by (simp add: to7Bit_def)

text \<open>
  Claim C5 as it is stated fails. For the bytes 0 and 2, both below 128, the number
  \<open>b0 | (b1 << 7)\<close> is 256, and \<open>from7Bit\<close> returns 0.
\<close>

theorem from7Bit_drops_high_bits:
  "(0::byte) < 128 \<and> (2::byte) < 128 \<and> uint (from7Bit 0 2) = 0 \<and>
   uint (0::byte) OR push_bit 7 (uint (2::byte)) = 256"
  by (simp add: from7Bit_def)

lemma recombine_int:
  assumes "0 \<le> v" "v < 2 ^ 21"
  shows "(v AND 0x7f) OR push_bit 7 (drop_bit 7 v AND 0x7f) OR
         push_bit 14 (drop_bit 14 v AND 0x7f) = (v::int)"
proof -
  have "bit ((v AND mask 7) OR push_bit 7 (drop_bit 7 v AND mask 7) OR
             push_bit 14 (drop_bit 14 v AND mask 7)) n = bit (take_bit 21 v) n" for n
  proof -
    consider "n < 7" | "7 \<le> n" "n < 14" | "14 \<le> n" "n < 21" | "21 \<le> n" by linarith
    then show ?thesis by cases (auto simp add: bit_simps)
  qed
  then have "(v AND mask 7) OR push_bit 7 (drop_bit 7 v AND mask 7) OR
             push_bit 14 (drop_bit 14 v AND mask 7) = take_bit 21 v"
    by (rule bit_eqI)
  also have "take_bit 21 v = v" using assms by (simp add: take_bit_int_eq_self)
  finally show ?thesis unfolding int_7f .
qed

lemma uint_low7: "uint (word_of_int (v AND 0x7f) :: byte) = v AND 0x7f"
  unfolding int_7f
  apply (simp add: uint_word_of_int_eq)
  apply (rule bit_eqI)
  apply (auto simp add: bit_simps)
  done

lemma low7_less: "(word_of_int (v AND 0x7f) :: byte) < 128"
proof -
  have "v AND 0x7f < 128" using take_bit_int_less_exp[of 7 v] by (simp add: take_bit_eq_mask)
  then have "uint (word_of_int (v AND 0x7f) :: byte) < 128" by (simp only: uint_low7)
  then show ?thesis by (simp add: word_less_def)
qed

text \<open>
  Claim C7. For every \<open>v\<close> with \<open>0 \<le> v < 2 ^ 21\<close>, \<open>intto7Bit v\<close> has exactly three
  bytes, each below 128, and \<open>b0 | (b1 << 7) | (b2 << 14)\<close> on their values is \<open>v\<close>.
\<close>

theorem intto7Bit_three_bytes:
  assumes "0 \<le> v" "v < 2 ^ 21"
  shows "length (intto7Bit v) = 3 \<and>
         (\<forall>b \<in> set (intto7Bit v). b < 128) \<and>
         uint (intto7Bit v ! 0) OR push_bit 7 (uint (intto7Bit v ! 1)) OR
           push_bit 14 (uint (intto7Bit v ! 2)) = v"
proof (intro conjI)
  show "length (intto7Bit v) = 3" by (simp add: intto7Bit_def)
next
  show "\<forall>b \<in> set (intto7Bit v). b < 128"
    using low7_less [of v] low7_less [of "drop_bit 7 v"] low7_less [of "drop_bit 14 v"]
    by (simp add: intto7Bit_def)
next
  have "uint (intto7Bit v ! 0) = v AND 0x7f"
       "uint (intto7Bit v ! 1) = drop_bit 7 v AND 0x7f"
       "uint (intto7Bit v ! 2) = drop_bit 14 v AND 0x7f"
    by (simp_all only: intto7Bit_def uint_low7 nth_Cons_0 nth_Cons_Suc nth_Cons_numeral One_nat_def numeral_2_eq_2 diff_Suc_1 pred_numeral_simps Num.BitM.simps)
  then show "uint (intto7Bit v ! 0) OR push_bit 7 (uint (intto7Bit v ! 1)) OR
           push_bit 14 (uint (intto7Bit v ! 2)) = v"
    using recombine_int [OF assms] by (simp only:)
qed

theorem intto7Bit_three_bytes_witness:
  "(0::int) \<le> 1234567 \<and> (1234567::int) < 2 ^ 21 \<and> intto7Bit 1234567 = [7, 45, 75] \<and>
   (7::int) OR push_bit 7 45 OR push_bit 14 75 = 1234567"
  using intto7Bit_three_bytes [of 1234567]
  by (simp add: intto7Bit_def)

lemma loop_even:
  "even (length d) \<Longrightarrow> even i \<Longrightarrow>
   multibyteString_loop d i str =
     Inr (str @ concat (map (\<lambda>k. string_of_byte (from7Bit (d ! (2 * k)) (d ! (2 * k + 1))))
                         [i div 2..<length d div 2]))"
proof (induction d i str rule: multibyteString_loop.induct)
  case (1 data i str)
  show ?case
  proof (cases "i < length data")
    case False
    then have "[i div 2..<length data div 2] = []" by simp
    with False show ?thesis by (simp add: multibyteString_loop.simps [of data i str])
  next
    case True
    from True "1.prems" have lt: "i + 1 < length data" by presburger
    from "1.prems" have i2: "2 * (i div 2) = i" by simp
    from True "1.prems" have "i div 2 < length data div 2" by presburger
    then have upt: "[i div 2..<length data div 2] = (i div 2) # [Suc (i div 2)..<length data div 2]"
      by (simp add: upt_conv_Cons)
    have s: "(i + 2) div 2 = Suc (i div 2)" by simp
    have "multibyteString_loop data i str =
          multibyteString_loop data (i + 2)
             (str @ string_of_byte (from7Bit (data ! i) (data ! (i + 1))))"
      using True lt by (simp add: multibyteString_loop.simps [of data i str])
    also have "\<dots> = Inr ((str @ string_of_byte (from7Bit (data ! i) (data ! (i + 1)))) @
        concat (map (\<lambda>k. string_of_byte (from7Bit (data ! (2 * k)) (data ! (2 * k + 1))))
                         [(i + 2) div 2..<length data div 2]))"
      using "1.IH" [OF True lt] "1.prems" by simp
    finally show ?thesis unfolding upt s by (simp add: i2)
  qed
qed

lemma loop_from_start:
  "even (length d) \<Longrightarrow> multibyteString_loop d 0 [] = Inr (text_of (pair_values d))"
  using loop_even [of d 0 "[]"]
  by (simp add: text_of_def pair_values_def comp_def del: upt.simps)

lemma multibyteString_text:
  "multibyteString data =
     Inr (text_of (pair_values (if odd (length data) then data @ [0] else data)))"
proof (cases "odd (length data)")
  case True
  then have "multibyteString data = multibyteString_loop (data @ [0]) 0 []"
    by (simp add: multibyteString_def odd_iff_mod_2_eq_one)
  also have "\<dots> = Inr (text_of (pair_values (data @ [0])))"
    using True by (intro loop_from_start) simp
  finally show ?thesis using True by simp
next
  case False
  then have "multibyteString data = multibyteString_loop data 0 []"
    by (simp add: multibyteString_def odd_iff_mod_2_eq_one)
  also have "\<dots> = Inr (text_of (pair_values data))"
    using False by (intro loop_from_start) simp
  finally show ?thesis using False by simp
qed

lemma two_byte_forms:
  "list_all (\<lambda>b::byte. b < 0x80 \<or>
      (0xC2 \<le> (0xC0 OR drop_bit 6 b) \<and> (0xC0 OR drop_bit 6 b) \<le> 0xDF \<and>
       \<not> (0xC0 OR drop_bit 6 b) < 0x80 \<and>
       0x80 \<le> (0x80 OR (b AND 0x3F)) \<and> (0x80 OR (b AND 0x3F)) \<le> 0xBF \<and>
       push_bit 6 (unat ((0xC0 OR drop_bit 6 b) AND 0x1F)) OR unat ((0x80 OR (b AND 0x3F)) AND 0x3F)
         = unat b))
     (map of_nat [0..<256])"
  by code_simp

lemma byte_enum: "(b::byte) \<in> set (map of_nat [0..<256])"
proof -
  have "unat b < 256" using unsigned_less [of b] by simp
  then have m: "unat b \<in> set [0..<256]" by simp
  have e: "b = of_nat (unat b)" by simp
  show ?thesis unfolding set_map using e m by (rule image_eqI)
qed

lemma two_byte_form:
  fixes b :: byte
  assumes "\<not> b < 0x80"
  shows "0xC2 \<le> (0xC0 OR drop_bit 6 b)" "(0xC0 OR drop_bit 6 b) \<le> 0xDF"
        "\<not> (0xC0 OR drop_bit 6 b) < 0x80"
        "0x80 \<le> (0x80 OR (b AND 0x3F))" "(0x80 OR (b AND 0x3F)) \<le> 0xBF"
        "push_bit 6 (unat ((0xC0 OR drop_bit 6 b) AND 0x1F)) OR unat ((0x80 OR (b AND 0x3F)) AND 0x3F)
         = unat b"
  using two_byte_forms byte_enum [of b] assms unfolding list_all_iff by blast+

lemma runes_string_of_byte: "runes (string_of_byte b @ rest) = unat b # runes rest"
proof (cases "b < 0x80")
  case True
  then show ?thesis by (cases rest) (simp_all add: string_of_byte_def)
next
  case False
  show ?thesis using two_byte_form [OF False] False
    by (simp add: string_of_byte_def)
qed

lemma runes_text_of: "runes (text_of cs) = map unat cs"
  by (induction cs) (simp_all add: text_of_def runes_string_of_byte)

lemma reencode_text_of: "reencode (text_of cs) = concat (map to7Bit cs)"
  by (simp add: reencode_def runes_text_of comp_def)

lemma byte_1: "(1::byte) = mask 1" by simp

lemma to7Bit_from7Bit: "to7Bit (from7Bit a b) = [a AND 0x7f, b AND 1]"
proof -
  have lo: "from7Bit a b AND 0x7f = a AND 0x7f"
    unfolding from7Bit_def byte_7f
    by (rule bit_word_eqI) (auto simp add: bit_simps)
  have "bit (drop_bit 7 (from7Bit a b) AND mask 7) n = bit (b AND mask 1) n" if "n < 8" for n
    unfolding from7Bit_def byte_7f using that
    by (cases "n = 0") (auto simp add: bit_simps)
  then have hi: "drop_bit 7 (from7Bit a b) AND 0x7f = b AND 1"
    unfolding byte_7f byte_1 by (auto intro: bit_word_eqI)
  show ?thesis by (simp add: to7Bit_def lo hi)
qed


lemma length_string_of_byte: "length (string_of_byte b) = (if b < 0x80 then 1 else 2)"
  by (simp add: string_of_byte_def)

lemma length_text_of:
  "length (text_of cs) = length cs + length (filter (\<lambda>b. \<not> b < 0x80) cs)"
  by (induction cs) (simp_all add: text_of_def length_string_of_byte)

lemma length_pair_values: "length (pair_values d) = length d div 2"
  by (simp add: pair_values_def)

text \<open>
  Claim C6, as the code has it. For every byte sequence, of odd length too,
  \<open>multibyteString\<close> returns a text and does not panic; a sequence of odd length is
  decoded exactly as the same sequence with one zero byte appended. The text holds one
  character for each consecutive pair of the padded input, the character whose number is
  the byte \<open>from7Bit\<close> decodes from the pair. In bytes it holds one byte for a pair that
  decodes below \<open>0x80\<close> and two bytes, the UTF-8 form of the character, for every other
  pair.
\<close>

theorem multibyteString_one_character_per_pair:
  "(let d = (if odd (length data) then data @ [0] else data) in
      multibyteString data = Inr (text_of (pair_values d)) \<and>
      length (pair_values d) = (length data + 1) div 2 \<and>
      runes (text_of (pair_values d)) = map unat (pair_values d) \<and>
      length (text_of (pair_values d)) =
        length (pair_values d) + length (filter (\<lambda>b. \<not> b < 0x80) (pair_values d))) \<and>
   (odd (length data) \<longrightarrow> multibyteString data = multibyteString (data @ [0]))"
proof -
  have pad: "multibyteString data = multibyteString (data @ [0])" if "odd (length data)"
    using that by (simp add: multibyteString_text)
  have len: "length (pair_values (if odd (length data) then data @ [0] else data))
             = (length data + 1) div 2"
    by (auto simp add: length_pair_values elim: oddE)
  show ?thesis
    unfolding Let_def
    using pad len multibyteString_text [of data] runes_text_of length_text_of by blast
qed

theorem multibyteString_one_character_per_pair_witness:
  "odd (length [0x41, 0, 0x7F, 1, 0x42 :: byte]) \<and>
   multibyteString [0x41, 0, 0x7F, 1, 0x42] = Inr [0x41, 0xC3, 0xBF, 0x42] \<and>
   multibyteString [0x41, 0, 0x7F, 1, 0x42, 0] = Inr [0x41, 0xC3, 0xBF, 0x42] \<and>
   pair_values [0x41, 0, 0x7F, 1, 0x42, 0] = [0x41, 0xFF, 0x42] \<and>
   runes [0x41, 0xC3, 0xBF, 0x42] = [0x41, 0xFF, 0x42]"
proof -
  have v: "pair_values [0x41, 0, 0x7F, 1, 0x42, 0] = [0x41, 0xFF, 0x42]"
    by code_simp
  have t: "text_of [0x41, 0xFF, 0x42] = [0x41, 0xC3, 0xBF, 0x42]"
    by code_simp
  have r: "runes [0x41, 0xC3, 0xBF, 0x42] = [0x41, 0xFF, 0x42]"
    by code_simp
  have m: "multibyteString [0x41, 0, 0x7F, 1, 0x42, 0] = Inr [0x41, 0xC3, 0xBF, 0x42]"
    by code_simp
  show ?thesis
    using multibyteString_one_character_per_pair [of "[0x41, 0, 0x7F, 1, 0x42]"]
    by (simp add: v t r m)
qed

text \<open>
  Claim C6 as it is stated fails in its last part. The pair \<open>0, 1\<close> decodes to the
  byte \<open>0x80\<close>, and \<open>string(0x80)\<close> is two bytes long:
  the output of one pair is not one byte.
\<close>

theorem multibyteString_two_bytes_for_one_pair:
  "multibyteString [0, 1] = Inr [0xC2, 0x80]"
  by code_simp

text \<open>
  Claim C4 as it is stated fails. The even-length sequence \<open>0, 2\<close> decodes to the
  character 0, which \<open>to7Bit\<close> encodes as \<open>0, 0\<close>: the round trip does not give the
  sequence back.
\<close>

theorem multibyteString_reencode_loses_bits:
  "multibyteString [0, 2] = Inr [0] \<and> reencode [0] = [0, 0] \<and> reencode [0] \<noteq> [0, 2]"
  by code_simp

lemma concat_pairs_take:
  "2 * n \<le> length d \<Longrightarrow>
   concat (map (\<lambda>k. [d ! (2 * k), d ! (2 * k + 1)]) [0..<n]) = take (2 * n) d"
proof (induction n)
  case 0
  then show ?case by simp
next
  case (Suc n)
  then have a: "2 * n < length d" and b: "Suc (2 * n) < length d" by simp_all
  have "take (2 * Suc n) d = take (Suc (Suc (2 * n))) d" by simp
  also have "\<dots> = take (2 * n) d @ [d ! (2 * n), d ! (Suc (2 * n))]"
    using a b by (simp add: take_Suc_conv_app_nth)
  finally show ?case using Suc by simp
qed

text \<open>
  Claim C4, as the code has it. For every byte sequence of even length in which the first
  byte of each pair is below 128 and the second below 2, decoding with
  \<open>multibyteString\<close> and re-encoding each character of the text with \<open>to7Bit\<close> gives
  the sequence back.
\<close>

theorem multibyteString_reencode_roundtrip:
  assumes "even (length data)"
    and "\<forall>k < length data div 2. data ! (2 * k) < 128 \<and> data ! (2 * k + 1) < 2"
  shows "\<exists>s. multibyteString data = Inr s \<and> reencode s = data"
proof -
  have m: "multibyteString data = Inr (text_of (pair_values data))"
    using assms(1) by (simp add: multibyteString_text)
  have one: "b AND 1 = b" if "b < 2" for b :: byte
    using that less_mask_eq [of b 1] by simp
  have "concat (map to7Bit (pair_values data)) =
        concat (map (\<lambda>k. [data ! (2 * k), data ! (2 * k + 1)]) [0..<length data div 2])"
    unfolding pair_values_def map_map comp_def to7Bit_from7Bit
    using assms(2) by (intro arg_cong [where f = concat] map_cong) (simp_all add: and_7f_small one)
  also have "\<dots> = take (2 * (length data div 2)) data"
    by (rule concat_pairs_take) simp
  also have "\<dots> = data" using assms(1) by simp
  finally have "reencode (text_of (pair_values data)) = data"
    by (simp add: reencode_text_of)
  with m show ?thesis by blast
qed

theorem multibyteString_reencode_roundtrip_witness:
  "even (length [0x48, 0, 0x7F, 1 :: byte]) \<and>
   [0x48, 0, 0x7F, 1 :: byte] ! 0 < 128 \<and> [0x48, 0, 0x7F, 1 :: byte] ! 1 < 2 \<and>
   [0x48, 0, 0x7F, 1 :: byte] ! 2 < 128 \<and> [0x48, 0, 0x7F, 1 :: byte] ! 3 < 2 \<and>
   multibyteString [0x48, 0, 0x7F, 1] = Inr [0x48, 0xC3, 0xBF] \<and>
   reencode [0x48, 0xC3, 0xBF] = [0x48, 0, 0x7F, 1]"
proof -
  have h: "\<forall>k < length [0x48, 0, 0x7F, 1 :: byte] div 2.
             [0x48, 0, 0x7F, 1 :: byte] ! (2 * k) < 128 \<and> [0x48, 0, 0x7F, 1 :: byte] ! (2 * k + 1) < 2"
  proof (intro allI impI)
    fix k :: nat
    assume "k < length [0x48, 0, 0x7F, 1 :: byte] div 2"
    then have "k = 0 \<or> k = 1" by auto
    then show "[0x48, 0, 0x7F, 1 :: byte] ! (2 * k) < 128 \<and>
               [0x48, 0, 0x7F, 1 :: byte] ! (2 * k + 1) < 2"
      by auto
  qed
  have m: "multibyteString [0x48, 0, 0x7F, 1] = Inr [0x48, 0xC3, 0xBF]"
    by code_simp
  show ?thesis
    using multibyteString_reencode_roundtrip [of "[0x48, 0, 0x7F, 1]", OF _ h]
    by (simp add: m)
qed

section \<open>Properties of the client\<close>

lemma slice_index_in_range:
  "0 \<le> i \<Longrightarrow> i < int (length s) \<Longrightarrow> slice_index s i = Inr (s ! nat i)"
  by (simp add: slice_index_def)

lemma slice_index_outside:
  "\<not> (0 \<le> i \<and> i < int (length s)) \<Longrightarrow> slice_index s i = Inl (IndexOutOfRange i (length s))"
  by (simp add: slice_index_def)

lemma recorder_simps:
  "board_Pins recording_board = pins"
  "board_SetPinMode recording_board pin m = record_command (SetPinMode pin m)"
  "board_AnalogWrite recording_board pin v = record_command (AnalogWrite pin v)"
  "board_ReportAnalog recording_board pin v = record_command (ReportAnalog pin v)"
  "board_ReportDigital recording_board pin v = record_command (ReportDigital pin v)"
  "board_ServoConfig recording_board pin x y = record_command (BoardServoConfig pin x y)"
  "board_Disconnect recording_board = recorder_Disconnect"
  by (simp_all add: recording_board_def)

lemma refusing_simps:
  "board_Pins refusing_board = pins"
  "board_SetPinMode refusing_board pin m r = (Some (BoardError ''refused''), r)"
  by (simp_all add: refusing_board_def recording_board_def)

lemma board_of_simps:
  "pins (board_of n m) = replicate n \<lparr>SupportedModes = [], Mode = m, Val = 0\<rparr>"
  "sent (board_of n m) = []"
  "connection (board_of n m) = Ready"
  by (simp_all add: board_of_def)

lemma client_of_simps:
  "board (client_of r) = Some r"
  "logger (client_of r) = []"
  by (simp_all add: client_of_def)

text \<open>
  Claim C1, as the code has it. For a pin inside the table whose mode is not Servo,
  \<open>ServoWrite\<close> first calls the board's \<open>SetPinMode\<close> with the pin and Servo. When that
  call returns an error, \<open>ServoWrite\<close> returns this error and calls \<open>AnalogWrite\<close> not at
  all; otherwise it calls \<open>AnalogWrite\<close> with the pin and the angle and returns what that
  call returns. No error of its own is made for the mode.
\<close>

theorem ServoWrite_sets_mode_first:
  assumes "board ino = Some b"
    and "0 \<le> pin" and "pin < int (length (board_Pins B b))"
    and "Mode (board_Pins B b ! nat pin) \<noteq> Servo F"
  shows "ServoWrite F B ino pin angle =
     (case board_SetPinMode B pin (Servo F) b of
        (Some e, b1) \<Rightarrow> Inr (Some e, ino\<lparr>board := Some b1\<rparr>)
      | (None, b1) \<Rightarrow>
          (case board_AnalogWrite B pin (uint angle) b1 of
             (err2, b2) \<Rightarrow>
               Inr (err2, ino\<lparr>board := Some b2,
                                logger := logger ino @ [LogServoWrite pin (uint angle)]\<rparr>)))"
  using assms
  by (simp add: ServoWrite_def slice_index_in_range split: prod.splits option.splits)

theorem ServoWrite_sets_mode_first_witness:
  "board (client_of (board_of 20 0)) = Some (board_of 20 0) \<and>
   (0::int) \<le> 3 \<and> (3::int) < int (length (board_Pins recording_board (board_of 20 0))) \<and>
   Mode (board_Pins recording_board (board_of 20 0) ! nat 3) \<noteq> Servo firmata_modes \<and>
   commands_of (ServoWrite firmata_modes recording_board (client_of (board_of 20 0)) 3 45)
     = Some [SetPinMode 3 4, AnalogWrite 3 45] \<and>
   error_of (ServoWrite firmata_modes recording_board (client_of (board_of 20 0)) 3 45)
     = Some None \<and>
   commands_of (ServoWrite firmata_modes refusing_board (client_of (board_of 20 0)) 3 45)
     = Some [] \<and>
   error_of (ServoWrite firmata_modes refusing_board (client_of (board_of 20 0)) 3 45)
     = Some (Some (BoardError ''refused''))"
  using ServoWrite_sets_mode_first [of "client_of (board_of 20 0)" "board_of 20 0" 3
          recording_board firmata_modes 45]
        ServoWrite_sets_mode_first [of "client_of (board_of 20 0)" "board_of 20 0" 3
          refusing_board firmata_modes 45]
  by (simp add: recorder_simps refusing_simps board_of_simps client_of_simps firmata_modes_def
        record_command_def commands_of_def error_of_def)

text \<open>
  Claim C1 as it is stated fails. On a board whose pin 5 is in mode Input,
  \<open>ServoWrite 5 90\<close> returns \<open>nil\<close>, and the
  board has received the mode change and the write: the call neither fails nor sends
  nothing.
\<close>

theorem ServoWrite_no_mode_mismatch:
  "Mode (board_Pins recording_board (board_of 20 0) ! nat 5) = Input firmata_modes \<and>
   Input firmata_modes \<noteq> Servo firmata_modes \<and>
   error_of (ServoWrite firmata_modes recording_board (client_of (board_of 20 0)) 5 90)
     = Some None \<and>
   commands_of (ServoWrite firmata_modes recording_board (client_of (board_of 20 0)) 5 90)
     = Some [SetPinMode 5 4, AnalogWrite 5 90]"
  by (simp add: ServoWrite_def slice_index_def recorder_simps board_of_simps client_of_simps
        firmata_modes_def record_command_def commands_of_def error_of_def)


text \<open>
  What the source fixes about \<open>ServoConfig pin min max\<close> is the position of each
  argument in the call of the board's \<open>ServoConfig\<close>: the pin first, the caller's \<open>max\<close>
  second, the caller's \<open>min\<close> third. The interface names no parameter, and which field of
  the servo-config command each position fills is written in package firmata.
\<close>

lemma ServoConfig_argument_positions:
  assumes "board ino = Some b"
  shows "ServoConfig B ino pin min' max' =
     (case board_ServoConfig B pin max' min' b of
        (err, b') \<Rightarrow> Inr (err, ino\<lparr>board := Some b'\<rparr>))"
  using assms by (simp add: ServoConfig_def)

lemma ServoConfig_argument_positions_example:
  "commands_of (ServoConfig recording_board (client_of (board_of 20 0)) 9 544 2400)
     = Some [BoardServoConfig 9 2400 544]"
  by (simp add: ServoConfig_def recorder_simps board_of_simps client_of_simps
        record_command_def commands_of_def)

lemma uint8_never_negative: "\<not> (word_of_int pin :: 8 word) < 0"
  by simp

lemma PinMode_rejects_above_length:
  assumes "board ino = Some b" and "int (length (board_Pins B b)) < pin"
  shows "PinMode F B ino pin mode = Inr (Some (InvalidPinNumber pin), ino)"
  using assms by (simp add: PinMode_def)

text \<open>
  Claim C3 at the inputs where the code departs from it. On a board with 20 pins the pin
  numbers 20 and -1 are outside the table, yet \<open>PinMode\<close> returns \<open>nil\<close> for them and
  the board has received \<open>SetPinMode\<close>: the test \<open>uint8(pin) < 0\<close> holds for no pin, and
  \<open>pin > len\<close> lets \<open>pin = len\<close> through. From 21 on the error is returned and nothing
  is sent.
\<close>

theorem PinMode_accepts_length_and_negative:
  "length (board_Pins recording_board (board_of 20 0)) = 20 \<and>
   error_of (PinMode firmata_modes recording_board (client_of (board_of 20 0)) 20 1)
     = Some None \<and>
   commands_of (PinMode firmata_modes recording_board (client_of (board_of 20 0)) 20 1)
     = Some [SetPinMode 20 1] \<and>
   error_of (PinMode firmata_modes recording_board (client_of (board_of 20 0)) (- 1) 1)
     = Some None \<and>
   commands_of (PinMode firmata_modes recording_board (client_of (board_of 20 0)) (- 1) 1)
     = Some [SetPinMode (- 1) 1] \<and>
   error_of (PinMode firmata_modes recording_board (client_of (board_of 20 0)) 21 1)
     = Some (Some (InvalidPinNumber 21)) \<and>
   commands_of (PinMode firmata_modes recording_board (client_of (board_of 20 0)) 21 1)
     = Some []"
  by (simp add: PinMode_def recorder_simps board_of_simps client_of_simps
        firmata_modes_def record_command_def commands_of_def error_of_def)

text \<open>
  The board receives the mode as it was given; the log line shows the mode's low eight
  bits, through \<open>String()\<close>.
\<close>

lemma PinMode_logs_truncated_mode:
  "PinMode firmata_modes recording_board (client_of (board_of 20 0)) 5 258
     = Inr (None, (client_of (board_of 20 0))
              \<lparr>board := Some ((board_of 20 0)\<lparr>sent := [SetPinMode 5 258]\<rparr>),
               logger := [LogPinMode 5 ''ANALOG'']\<rparr>)"
  by (simp add: PinMode_def PinMode_String_def recorder_simps board_of_simps client_of_simps
        firmata_modes_def record_command_def)

lemma Disconnect_delegates:
  "board ino = Some b \<Longrightarrow>
   Disconnect B ino = (case board_Disconnect B b of (err, b') \<Rightarrow> (err, ino\<lparr>board := Some b'\<rparr>))"
  by (simp add: Disconnect_def)

lemma Disconnect_without_board: "board ino = None \<Longrightarrow> Disconnect B ino = (None, ino)"
  by (simp add: Disconnect_def)

lemma recorder_Disconnect_twice:
  "recorder_Disconnect r = (err, r') \<Longrightarrow> err = None \<and> recorder_Disconnect r' = (None, r')"
  by (auto simp add: recorder_Disconnect_def split: if_splits)

text \<open>
  Claim C8. Over a board whose own \<open>Disconnect\<close> is as the specification describes it,
  a \<open>Disconnect\<close> of the client that follows a successful one returns \<open>nil\<close> and changes
  nothing. The client keeps no state of its own for this: with a board present it hands
  the call to the board each time (\<open>Disconnect_delegates\<close>).
\<close>

theorem Disconnect_twice_is_noop:
  assumes "Disconnect recording_board ino = (None, ino')"
  shows "Disconnect recording_board ino' = (None, ino')"
proof (cases "board ino")
  case None
  with assms show ?thesis by (simp add: Disconnect_def)
next
  case (Some r)
  obtain e r' where d: "recorder_Disconnect r = (e, r')" by (cases "recorder_Disconnect r")
  with Some assms have i: "ino' = ino\<lparr>board := Some r'\<rparr>"
    by (simp add: Disconnect_def recorder_simps)
  from recorder_Disconnect_twice [OF d] have "recorder_Disconnect r' = (None, r')" by simp
  then show ?thesis by (simp add: i Disconnect_def recorder_simps)
qed

theorem Disconnect_twice_is_noop_witness:
  "Disconnect recording_board (client_of (board_of 20 0))
     = (None, client_of \<lparr>pins = [], sent = [], connection = Disconnected\<rparr>) \<and>
   Disconnect recording_board (client_of \<lparr>pins = [], sent = [], connection = Disconnected\<rparr>)
     = (None, client_of \<lparr>pins = [], sent = [], connection = Disconnected\<rparr>)"
proof -
  have d: "Disconnect recording_board (client_of (board_of 20 0))
     = (None, client_of \<lparr>pins = [], sent = [], connection = Disconnected\<rparr>)"
    by (simp add: Disconnect_def recorder_simps recorder_Disconnect_def board_of_def client_of_def)
  show ?thesis using d Disconnect_twice_is_noop [OF d] by simp
qed


lemma wrap_int_id: "- (2 ^ 63) \<le> x \<Longrightarrow> x < 2 ^ 63 \<Longrightarrow> wrap_int x = x"
  by (simp add: wrap_int_def)

lemma digitalPin_plus_14:
  "- (2 ^ 63) \<le> pin \<Longrightarrow> pin + 14 < 2 ^ 63 \<Longrightarrow> digitalPin pin = pin + 14"
  by (simp add: digitalPin_def wrap_int_id)

text \<open>
  Claim C9. \<open>PinMode\<close> tests the pin number it was given: above the table's length it
  returns the error with that number. For a pin number that passes the test, mode Analog
  sends \<open>SetPinMode\<close> and \<open>ReportAnalog\<close> for \<open>pin + 14\<close>; mode Input sends
  \<open>SetPinMode\<close> and \<open>ReportDigital\<close> for \<open>pin\<close>, and every other mode sends
  \<open>SetPinMode\<close> for \<open>pin\<close>. The pin number is a Go \<open>int\<close> for which \<open>pin + 14\<close> does
  not overflow, as it is for every pin that passes the test on a table that fits in memory;
  Analog and Input are different constants, as the \<open>switch\<close> needs to compile.
\<close>

theorem PinMode_analog_remaps_after_check:
  assumes "board ino = Some b"
    and "- (2 ^ 63) \<le> pin" and "pin + 14 < 2 ^ 63"
  shows
    "(int (length (board_Pins B b)) < pin \<longrightarrow>
        PinMode F B ino pin mode = Inr (Some (InvalidPinNumber pin), ino)) \<and>
     (pin \<le> int (length (board_Pins B b)) \<longrightarrow>
        (Analog F \<noteq> Input F \<longrightarrow>
           PinMode F B ino pin (Analog F) =
             (case board_SetPinMode B (pin + 14) (Analog F) b of
                (Some e, b1) \<Rightarrow> Inr (Some e, ino\<lparr>board := Some b1\<rparr>)
              | (None, b1) \<Rightarrow>
                  (case board_ReportAnalog B (pin + 14) 1 b1 of
                     (Some e, b2) \<Rightarrow> Inr (Some e, ino\<lparr>board := Some b2\<rparr>)
                   | (None, b2) \<Rightarrow>
                       Inr (None, ino\<lparr>board := Some b2,
                              logger := logger ino @ [LogPinMode (pin + 14) (PinMode_String F (word_of_int (Analog F)))]\<rparr>)))) \<and>
        PinMode F B ino pin (Input F) =
          (case board_SetPinMode B pin (Input F) b of
             (Some e, b1) \<Rightarrow> Inr (Some e, ino\<lparr>board := Some b1\<rparr>)
           | (None, b1) \<Rightarrow>
               (case board_ReportDigital B pin 1 b1 of
                  (Some e, b2) \<Rightarrow> Inr (Some e, ino\<lparr>board := Some b2\<rparr>)
                | (None, b2) \<Rightarrow>
                    Inr (None, ino\<lparr>board := Some b2,
                           logger := logger ino @ [LogPinMode pin (PinMode_String F (word_of_int (Input F)))]\<rparr>))) \<and>
        (mode \<noteq> Input F \<and> mode \<noteq> Analog F \<longrightarrow>
           PinMode F B ino pin mode =
             (case board_SetPinMode B pin mode b of
                (Some e, b1) \<Rightarrow> Inr (Some e, ino\<lparr>board := Some b1\<rparr>)
              | (None, b1) \<Rightarrow>
                  Inr (None, ino\<lparr>board := Some b1,
                         logger := logger ino @ [LogPinMode pin (PinMode_String F (word_of_int mode))]\<rparr>))))"
proof (intro conjI impI)
  assume "int (length (board_Pins B b)) < pin"
  then show "PinMode F B ino pin mode = Inr (Some (InvalidPinNumber pin), ino)"
    using assms(1) by (simp add: PinMode_def)
next
  assume ok: "pin \<le> int (length (board_Pins B b))" and "Analog F \<noteq> Input F"
  then show "PinMode F B ino pin (Analog F) =
             (case board_SetPinMode B (pin + 14) (Analog F) b of
                (Some e, b1) \<Rightarrow> Inr (Some e, ino\<lparr>board := Some b1\<rparr>)
              | (None, b1) \<Rightarrow>
                  (case board_ReportAnalog B (pin + 14) 1 b1 of
                     (Some e, b2) \<Rightarrow> Inr (Some e, ino\<lparr>board := Some b2\<rparr>)
                   | (None, b2) \<Rightarrow>
                       Inr (None, ino\<lparr>board := Some b2,
                              logger := logger ino @ [LogPinMode (pin + 14) (PinMode_String F (word_of_int (Analog F)))]\<rparr>)))"
    using assms by (simp add: PinMode_def digitalPin_plus_14 Let_def)
next
  assume ok: "pin \<le> int (length (board_Pins B b))"
  then show "PinMode F B ino pin (Input F) =
          (case board_SetPinMode B pin (Input F) b of
             (Some e, b1) \<Rightarrow> Inr (Some e, ino\<lparr>board := Some b1\<rparr>)
           | (None, b1) \<Rightarrow>
               (case board_ReportDigital B pin 1 b1 of
                  (Some e, b2) \<Rightarrow> Inr (Some e, ino\<lparr>board := Some b2\<rparr>)
                | (None, b2) \<Rightarrow>
                    Inr (None, ino\<lparr>board := Some b2,
                           logger := logger ino @ [LogPinMode pin (PinMode_String F (word_of_int (Input F)))]\<rparr>)))"
    using assms(1) by (simp add: PinMode_def)
next
  assume ok: "pin \<le> int (length (board_Pins B b))"
    and "mode \<noteq> Input F \<and> mode \<noteq> Analog F"
  then show "PinMode F B ino pin mode =
             (case board_SetPinMode B pin mode b of
                (Some e, b1) \<Rightarrow> Inr (Some e, ino\<lparr>board := Some b1\<rparr>)
              | (None, b1) \<Rightarrow>
                  Inr (None, ino\<lparr>board := Some b1,
                         logger := logger ino @ [LogPinMode pin (PinMode_String F (word_of_int mode))]\<rparr>))"
    using assms(1) by (simp add: PinMode_def)
qed


theorem PinMode_analog_remaps_after_check_witness:
  "board (client_of (board_of 20 0)) = Some (board_of 20 0) \<and>
   (10::int) \<le> int (length (board_Pins recording_board (board_of 20 0))) \<and>
   Analog firmata_modes \<noteq> Input firmata_modes \<and>
   (1::int) \<noteq> Input firmata_modes \<and> (1::int) \<noteq> Analog firmata_modes \<and>
   commands_of (PinMode firmata_modes recording_board (client_of (board_of 20 0)) 10
                  (Analog firmata_modes))
     = Some [SetPinMode 24 2, ReportAnalog 24 1] \<and>
   commands_of (PinMode firmata_modes recording_board (client_of (board_of 20 0)) 10
                  (Input firmata_modes))
     = Some [SetPinMode 10 0, ReportDigital 10 1] \<and>
   commands_of (PinMode firmata_modes recording_board (client_of (board_of 20 0)) 10 1)
     = Some [SetPinMode 10 1] \<and>
   int (length (board_Pins recording_board (board_of 20 0))) < 21 \<and>
   PinMode firmata_modes recording_board (client_of (board_of 20 0)) 21 (Analog firmata_modes)
     = Inr (Some (InvalidPinNumber 21), client_of (board_of 20 0))"
  using PinMode_analog_remaps_after_check [of "client_of (board_of 20 0)" "board_of 20 0" 10
          recording_board firmata_modes 1]
        PinMode_analog_remaps_after_check [of "client_of (board_of 20 0)" "board_of 20 0" 21
          recording_board firmata_modes "Analog firmata_modes"]
  by (simp add: recorder_simps board_of_simps client_of_simps firmata_modes_def
        record_command_def commands_of_def)

text \<open>
  Claim C10. \<open>ServoWrite\<close> and \<open>PwmWrite\<close> read \<open>Pins()[pin]\<close> without a test of the
  pin number. With \<open>0 \<le> pin < len(Pins())\<close> both return; for every other pin number both
  panic with an index out of range, and no error value is returned.
\<close>

theorem ServoWrite_PwmWrite_index_unchecked:
  assumes "board ino = Some b"
  shows
    "(0 \<le> pin \<and> pin < int (length (board_Pins B b)) \<longrightarrow>
        (\<exists>r. ServoWrite F B ino pin v = Inr r) \<and> (\<exists>r. PwmWrite F B ino pin v = Inr r)) \<and>
     (\<not> (0 \<le> pin \<and> pin < int (length (board_Pins B b))) \<longrightarrow>
        ServoWrite F B ino pin v = Inl (IndexOutOfRange pin (length (board_Pins B b))) \<and>
        PwmWrite F B ino pin v = Inl (IndexOutOfRange pin (length (board_Pins B b))) \<and>
        error_of (ServoWrite F B ino pin v) = None \<and>
        error_of (PwmWrite F B ino pin v) = None)"
proof (intro conjI impI)
  assume r: "0 \<le> pin \<and> pin < int (length (board_Pins B b))"
  show "\<exists>r. ServoWrite F B ino pin v = Inr r"
    using assms r
    by (simp add: ServoWrite_def slice_index_in_range split: prod.splits option.splits)
  show "\<exists>r. PwmWrite F B ino pin v = Inr r"
    using assms r
    by (simp add: PwmWrite_def slice_index_in_range split: prod.splits option.splits)
next
  assume o: "\<not> (0 \<le> pin \<and> pin < int (length (board_Pins B b)))"
  show s: "ServoWrite F B ino pin v = Inl (IndexOutOfRange pin (length (board_Pins B b)))"
    using assms slice_index_outside [OF o] by (simp add: ServoWrite_def)
  show p: "PwmWrite F B ino pin v = Inl (IndexOutOfRange pin (length (board_Pins B b)))"
    using assms slice_index_outside [OF o] by (simp add: PwmWrite_def)
  show "error_of (ServoWrite F B ino pin v) = None" by (simp add: s error_of_def)
  show "error_of (PwmWrite F B ino pin v) = None" by (simp add: p error_of_def)
qed

theorem ServoWrite_PwmWrite_index_unchecked_witness:
  "board (client_of (board_of 20 0)) = Some (board_of 20 0) \<and>
   ServoWrite firmata_modes recording_board (client_of (board_of 20 0)) 20 90
     = Inl (IndexOutOfRange 20 20) \<and>
   PwmWrite firmata_modes recording_board (client_of (board_of 20 0)) 20 90
     = Inl (IndexOutOfRange 20 20) \<and>
   ServoWrite firmata_modes recording_board (client_of (board_of 20 0)) (- 1) 90
     = Inl (IndexOutOfRange (- 1) 20) \<and>
   PwmWrite firmata_modes recording_board (client_of (board_of 20 0)) (- 1) 90
     = Inl (IndexOutOfRange (- 1) 20) \<and>
   (0::int) \<le> 19 \<and> (19::int) < int (length (board_Pins recording_board (board_of 20 0))) \<and>
   commands_of (ServoWrite firmata_modes recording_board (client_of (board_of 20 0)) 19 90)
     = Some [SetPinMode 19 4, AnalogWrite 19 90] \<and>
   commands_of (PwmWrite firmata_modes recording_board (client_of (board_of 20 0)) 19 90)
     = Some [SetPinMode 19 3, AnalogWrite 19 90]"
proof -
  have i: "commands_of (ServoWrite firmata_modes recording_board (client_of (board_of 20 0)) 19 90)
            = Some [SetPinMode 19 4, AnalogWrite 19 90]"
       "commands_of (PwmWrite firmata_modes recording_board (client_of (board_of 20 0)) 19 90)
            = Some [SetPinMode 19 3, AnalogWrite 19 90]"
    by (simp_all add: ServoWrite_def PwmWrite_def slice_index_def recorder_simps board_of_simps
          client_of_simps firmata_modes_def record_command_def commands_of_def)
  show ?thesis
    using ServoWrite_PwmWrite_index_unchecked [of "client_of (board_of 20 0)" "board_of 20 0"
            20 recording_board firmata_modes 90]
          ServoWrite_PwmWrite_index_unchecked [of "client_of (board_of 20 0)" "board_of 20 0"
            "- 1" recording_board firmata_modes 90]
          ServoWrite_PwmWrite_index_unchecked [of "client_of (board_of 20 0)" "board_of 20 0"
            19 recording_board firmata_modes 90]
    by (simp add: i recorder_simps board_of_simps client_of_simps)
qed

end
